theory Spec2Isabelle
  imports Main "HOL-Library.Char_ord" "HOL-Library.List_Lexorder"
begin

section \<open>The guest-view controller of atom/browser/api/atom\_api\_web\_contents.cc\<close>

text \<open>
  The development embeds the class \<open>atom::api::WebContents\<close> and the converter
  \<open>mate::Converter<atom::api::SetSizeParams>\<close>. A member \<open>foo_\<close> of the class is the
  record field \<open>foo'\<close>, since an identifier cannot end in an underscore. A call that
  dereferences a null pointer has no defined result in the source; in the model it is
  the value \<open>Inl NullDereference\<close> and leaves no state behind.
\<close>

subsection \<open>gfx::Size\<close>

text \<open>
  Modelled from the spec: the class \<open>gfx::Size\<close> belongs to the rendering engine's
  geometry library and is not part of the sources. The controller uses its accessors
  \<open>width\<close> and \<open>height\<close>, and \<open>IsEmpty\<close>, \<open>SetToMin\<close>, \<open>SetToMax\<close>, \<open>SetSize\<close>, \<open>set_width\<close>
  and \<open>set_height\<close>; they are taken as the specification describes a size: a pair
  (width, height) of integers, empty when its area is zero, with a component-wise minimum
  and maximum. None of these operations does arithmetic on a component, so no overflow
  can occur, and nothing below depends on the sign of a component.
\<close>

record Size =
  width :: int
  height :: int

definition IsEmpty :: "Size \<Rightarrow> bool" where
  \<comment> \<open>Modelled from the spec: empty means zero area.\<close>
  "IsEmpty sz = (width sz = 0 \<or> height sz = 0)"

definition SetToMin :: "Size \<Rightarrow> Size \<Rightarrow> Size" where
  \<comment> \<open>Modelled from the spec: the component-wise minimum.\<close>
  "SetToMin sz other =
     \<lparr>width = (if width sz \<le> width other then width sz else width other),
      height = (if height sz \<le> height other then height sz else height other)\<rparr>"

definition SetToMax :: "Size \<Rightarrow> Size \<Rightarrow> Size" where
  \<comment> \<open>Modelled from the spec: the component-wise maximum.\<close>
  "SetToMax sz other =
     \<lparr>width = (if width sz \<ge> width other then width sz else width other),
      height = (if height sz \<ge> height other then height sz else height other)\<rparr>"

definition set_width :: "int \<Rightarrow> Size \<Rightarrow> Size" where
  \<comment> \<open>Modelled from the spec: the width takes the given value.\<close>
  "set_width w sz = sz\<lparr>width := w\<rparr>"

definition set_height :: "int \<Rightarrow> Size \<Rightarrow> Size" where
  \<comment> \<open>Modelled from the spec: the height takes the given value.\<close>
  "set_height h sz = sz\<lparr>height := h\<rparr>"

definition Size_SetSize :: "int \<Rightarrow> int \<Rightarrow> Size \<Rightarrow> Size" where
  \<comment> \<open>Modelled from the spec: \<open>gfx::Size::SetSize\<close>, both components take the given values.\<close>
  "Size_SetSize w h sz = set_height h (set_width w sz)"

definition Size_le :: "Size \<Rightarrow> Size \<Rightarrow> bool" where
  \<comment> \<open>The component-wise order of the specification's invariant.\<close>
  "Size_le a b = (width a \<le> width b \<and> height a \<le> height b)"

subsection \<open>Notifications, engine requests and the controller's state\<close>

text \<open>
  \<open>Emit\<close> is inherited from the event emitter, which is not part of this file; a
  notification is recorded as its name and its arguments, in the order of emission. A
  handler that calls back into the controller while it is notified is not modelled.
  Requests to the rendering engine (\<open>rvh->EnableAutoResize\<close>, \<open>rvh->DisableAutoResize\<close>,
  \<open>guest_host_->SizeContents\<close>, \<open>guest_host_->WillDestroy\<close>, the creation of the web contents
  with or without the controller as its guest delegate, \<open>SetDelegate\<close>) are recorded the
  same way, each with the address of the object it is made on.
  Pointers are optional addresses, \<open>None\<close> being the null pointer.
\<close>

record GURL =
  spec :: string
  is_valid :: bool

datatype emit_arg = IntArg int | UrlSetArg "GURL list"

type_synonym event = "string \<times> emit_arg list"

datatype engine_call =
    EnableAutoResize nat Size Size
  | DisableAutoResize nat Size
  | SizeContents nat Size
  | WillDestroy nat
  | InspectableWebContents_Create nat bool
  | SetDelegate nat

datatype fault = NullDereference

text \<open>
  What the rendering engine answers when the controller queries it: the visible viewport
  of a web contents (\<open>None\<close> when it has no render widget host view), and the process and
  routing identifiers of its render view host.
\<close>

record engine =
  GetVisibleViewportSize :: "nat \<Rightarrow> Size option"
  rvh_process_id :: "nat \<Rightarrow> int"
  rvh_routing_id :: "nat \<Rightarrow> int"

record WebContents =
  web_contents :: "nat option"
  storage' :: "nat option"
  guest_instance_id' :: int
  guest_opaque' :: bool
  guest_host' :: "nat option"
  auto_size_enabled' :: bool
  is_full_page_plugin' :: bool
  embedder_web_contents' :: "nat option"
  min_auto_size' :: Size
  max_auto_size' :: Size
  normal_size' :: Size
  guest_size' :: Size
  emitted :: "event list"
  engine_calls :: "engine_call list"

record SetSizeParams =
  enable_auto_size :: "bool option"
  min_size :: "Size option"
  max_size :: "Size option"
  normal_size :: "Size option"

definition Emit :: "string \<Rightarrow> emit_arg list \<Rightarrow> WebContents \<Rightarrow> WebContents" where
  "Emit name args s = s\<lparr>emitted := emitted s @ [(name, args)]\<rparr>"

definition request :: "engine_call \<Rightarrow> WebContents \<Rightarrow> WebContents" where
  "request c s = s\<lparr>engine_calls := engine_calls s @ [c]\<rparr>"

subsection \<open>Size negotiation\<close>

definition kDefaultWidth :: int where
  "kDefaultWidth = 300"

definition kDefaultHeight :: int where
  "kDefaultHeight = 300"

definition GetDefaultSize :: "engine \<Rightarrow> WebContents \<Rightarrow> fault + Size" where
  "GetDefaultSize eng s =
     (if is_full_page_plugin' s then
        (case embedder_web_contents' s of
           None \<Rightarrow> Inl NullDereference
         | Some e \<Rightarrow>
             (case GetVisibleViewportSize eng e of
                None \<Rightarrow> Inl NullDereference
              | Some v \<Rightarrow> Inr v))
      else Inr \<lparr>width = kDefaultWidth, height = kDefaultHeight\<rparr>)"

definition GuestSizeChangedDueToAutoSize :: "Size \<Rightarrow> Size \<Rightarrow> WebContents \<Rightarrow> WebContents" where
  "GuestSizeChangedDueToAutoSize old_size new_size s =
     Emit ''size-changed''
       [IntArg (width old_size), IntArg (height old_size),
        IntArg (width new_size), IntArg (height new_size)] s"

definition GuestSizeChanged :: "Size \<Rightarrow> WebContents \<Rightarrow> WebContents" where
  "GuestSizeChanged new_size s =
     (if \<not> auto_size_enabled' s then s
      else (GuestSizeChangedDueToAutoSize (guest_size' s) new_size s)\<lparr>guest_size' := new_size\<rparr>)"

text \<open>
  The two statements of \<open>SetSize\<close> that complete a partially defined normal size; each
  queries the default size only when its condition holds.
\<close>

definition fill_normal_height :: "engine \<Rightarrow> WebContents \<Rightarrow> fault + WebContents" where
  "fill_normal_height eng s =
     (if width (normal_size' s) \<noteq> 0 \<and> \<not> height (normal_size' s) \<noteq> 0 then
        (case GetDefaultSize eng s of
           Inl e \<Rightarrow> Inl e
         | Inr d \<Rightarrow> Inr (s\<lparr>normal_size' := set_height (height d) (normal_size' s)\<rparr>))
      else Inr s)"

definition fill_normal_width :: "engine \<Rightarrow> WebContents \<Rightarrow> fault + WebContents" where
  "fill_normal_width eng s =
     (if \<not> width (normal_size' s) \<noteq> 0 \<and> height (normal_size' s) \<noteq> 0 then
        (case GetDefaultSize eng s of
           Inl e \<Rightarrow> Inl e
         | Inr d \<Rightarrow> Inr (s\<lparr>normal_size' := set_width (width d) (normal_size' s)\<rparr>))
      else Inr s)"

text \<open>The choice of \<open>new_size\<close> on the fixed-size path.\<close>

definition choose_new_size :: "engine \<Rightarrow> WebContents \<Rightarrow> fault + Size" where
  "choose_new_size eng s =
     (if \<not> IsEmpty (normal_size' s) then Inr (normal_size' s)
      else if \<not> IsEmpty (guest_size' s) then Inr (guest_size' s)
      else GetDefaultSize eng s)"

text \<open>The branch of \<open>SetSize\<close> taken when auto-size is being disabled.\<close>

definition SetSize_fixed :: "engine \<Rightarrow> nat \<Rightarrow> WebContents \<Rightarrow> fault + WebContents" where
  "SetSize_fixed eng rvh s =
     (case fill_normal_height eng s of
        Inl e \<Rightarrow> Inl e
      | Inr s1 \<Rightarrow>
     (case fill_normal_width eng s1 of
        Inl e \<Rightarrow> Inl e
      | Inr s2 \<Rightarrow>
     (case choose_new_size eng s2 of
        Inl e \<Rightarrow> Inl e
      | Inr new_size \<Rightarrow>
          (if auto_size_enabled' s2 then
             Inr ((GuestSizeChangedDueToAutoSize (guest_size' s2) new_size
                    (request (DisableAutoResize rvh new_size) s2))
                  \<lparr>guest_size' := new_size\<rparr>)
           else
             (case guest_host' s2 of
                None \<Rightarrow> Inl NullDereference
              | Some gh \<Rightarrow>
                  Inr ((request (SizeContents gh new_size) s2)\<lparr>guest_size' := new_size\<rparr>))))))"

definition SetSize :: "engine \<Rightarrow> SetSizeParams \<Rightarrow> WebContents \<Rightarrow> fault + WebContents" where
  "SetSize eng params s =
     (let enable_auto_size0 =
            (case enable_auto_size params of Some b \<Rightarrow> b | None \<Rightarrow> auto_size_enabled' s);
          min_sz = (case min_size params of Some m \<Rightarrow> m | None \<Rightarrow> min_auto_size' s);
          max_sz = (case max_size params of Some m \<Rightarrow> m | None \<Rightarrow> max_auto_size' s);
          s1 = (case normal_size params of Some n \<Rightarrow> s\<lparr>normal_size' := n\<rparr> | None \<Rightarrow> s);
          s2 = s1\<lparr>min_auto_size' := SetToMin min_sz max_sz\<rparr>;
          s3 = s2\<lparr>max_auto_size' := SetToMax max_sz min_sz\<rparr>;
          enable_auto_size1 =
            (enable_auto_size0 \<and>
             (\<not> IsEmpty (min_auto_size' s3) \<and> \<not> IsEmpty (max_auto_size' s3)))
      in case web_contents s3 of
           None \<Rightarrow> Inl NullDereference
         | Some rvh \<Rightarrow>
             (case (if enable_auto_size1 then
                      Inr ((request (EnableAutoResize rvh (min_auto_size' s3) (max_auto_size' s3)) s3)
                           \<lparr>normal_size' := Size_SetSize 0 0 (normal_size' s3)\<rparr>)
                    else SetSize_fixed eng rvh s3) of
                Inl e \<Rightarrow> Inl e
              | Inr s4 \<Rightarrow> Inr (s4\<lparr>auto_size_enabled' := enable_auto_size1\<rparr>)))"

subsection \<open>Construction, attachment and teardown\<close>

text \<open>
  The constructor that wraps an existing web contents. It leaves \<open>storage_\<close> empty and
  the sizes default-constructed. The member \<open>embedder_web_contents_\<close> is not in its
  initialiser list and its declaration is not in this file, so its first value is a
  parameter.
\<close>

definition CreateFrom :: "nat option \<Rightarrow> nat option \<Rightarrow> WebContents" where
  "CreateFrom wc embedder0 =
     \<lparr>web_contents = wc,
      storage' = None,
      guest_instance_id' = - 1,
      guest_opaque' = True,
      guest_host' = None,
      auto_size_enabled' = False,
      is_full_page_plugin' = False,
      embedder_web_contents' = embedder0,
      min_auto_size' = \<lparr>width = 0, height = 0\<rparr>,
      max_auto_size' = \<lparr>width = 0, height = 0\<rparr>,
      normal_size' = \<lparr>width = 0, height = 0\<rparr>,
      guest_size' = \<lparr>width = 0, height = 0\<rparr>,
      emitted = [],
      engine_calls = []\<rparr>"

text \<open>
  The constructor from options. The options dictionary is given by what its \<open>Get\<close>
  returns for the two keys read; \<open>fresh\<close> is the web contents the engine creates, which
  \<open>storage_\<close> then owns and the controller observes.
\<close>

record create_options =
  guestInstanceId :: "int option"
  isGuest :: "bool option"

definition Create :: "create_options \<Rightarrow> nat \<Rightarrow> nat option \<Rightarrow> WebContents" where
  "Create options fresh embedder0 =
     \<lparr>web_contents = Some fresh,
      storage' = Some fresh,
      guest_instance_id' = (case guestInstanceId options of Some i \<Rightarrow> i | None \<Rightarrow> - 1),
      guest_opaque' = True,
      guest_host' = None,
      auto_size_enabled' = False,
      is_full_page_plugin' = False,
      embedder_web_contents' = embedder0,
      min_auto_size' = \<lparr>width = 0, height = 0\<rparr>,
      max_auto_size' = \<lparr>width = 0, height = 0\<rparr>,
      normal_size' = \<lparr>width = 0, height = 0\<rparr>,
      guest_size' = \<lparr>width = 0, height = 0\<rparr>,
      emitted = [],
      engine_calls =
        [InspectableWebContents_Create fresh (case isGuest options of Some g \<Rightarrow> g | None \<Rightarrow> False),
         SetDelegate fresh]\<rparr>"

definition SetGuestHost :: "nat option \<Rightarrow> WebContents \<Rightarrow> WebContents" where
  "SetGuestHost guest_host s = s\<lparr>guest_host' := guest_host\<rparr>"

definition WillAttach :: "nat option \<Rightarrow> int \<Rightarrow> bool \<Rightarrow> WebContents \<Rightarrow> WebContents" where
  "WillAttach embedder_web_contents element_instance_id is_full_page_plugin s =
     s\<lparr>embedder_web_contents' := embedder_web_contents,
       is_full_page_plugin' := is_full_page_plugin\<rparr>"


definition GetOwnerWebContents :: "WebContents \<Rightarrow> nat option" where
  "GetOwnerWebContents s = embedder_web_contents' s"

definition RenderViewDeleted :: "engine \<Rightarrow> nat \<Rightarrow> WebContents \<Rightarrow> WebContents" where
  "RenderViewDeleted eng rvh s =
     Emit ''render-view-deleted'' [IntArg (rvh_process_id eng rvh), IntArg (rvh_routing_id eng rvh)] s"

definition WebContentsDestroyed :: "engine \<Rightarrow> WebContents \<Rightarrow> fault + WebContents" where
  "WebContentsDestroyed eng s =
     (case web_contents s of
        None \<Rightarrow> Inl NullDereference
      | Some wc \<Rightarrow> Inr (Emit ''destroyed'' [] (RenderViewDeleted eng wc s)))"

definition Destroy :: "engine \<Rightarrow> WebContents \<Rightarrow> fault + WebContents" where
  "Destroy eng s =
     (case storage' s of
        None \<Rightarrow> Inr s
      | Some st \<Rightarrow>
          (case WebContentsDestroyed eng s of
             Inl e \<Rightarrow> Inl e
           | Inr s1 \<Rightarrow>
               (case guest_host' s1 of
                  None \<Rightarrow> Inl NullDereference
                | Some gh \<Rightarrow>
                    Inr ((request (WillDestroy gh) s1)
                         \<lparr>guest_host' := None, web_contents := None, storage' := None\<rparr>))))"


subsection \<open>Favicon updates\<close>

datatype IconType = INVALID_ICON | FAVICON | TOUCH_ICON | TOUCH_PRECOMPOSED_ICON

record FaviconURL =
  icon_url :: GURL
  icon_type :: IconType

text \<open>
  \<open>std::set<GURL>\<close> keeps its elements in increasing order of \<open>GURL::operator<\<close>, which
  compares the specs, and holds no two elements that compare equivalent; \<open>insert\<close> leaves
  the set as it is when an equivalent element is there.
\<close>

fun set_insert :: "GURL \<Rightarrow> GURL list \<Rightarrow> GURL list" where
  "set_insert u [] = [u]"
| "set_insert u (v # vs) =
     (if spec u < spec v then u # v # vs
      else if spec v < spec u then v # set_insert u vs
      else v # vs)"

fun collect_favicons :: "FaviconURL list \<Rightarrow> GURL list \<Rightarrow> GURL list" where
  "collect_favicons [] unique_urls = unique_urls"
| "collect_favicons (it # rest) unique_urls =
     (if icon_type it \<noteq> FAVICON then collect_favicons rest unique_urls
      else if is_valid (icon_url it)
           then collect_favicons rest (set_insert (icon_url it) unique_urls)
           else collect_favicons rest unique_urls)"

definition DidUpdateFaviconURL :: "FaviconURL list \<Rightarrow> WebContents \<Rightarrow> WebContents" where
  "DidUpdateFaviconURL urls s =
     Emit ''page-favicon-updated'' [UrlSetArg (collect_favicons urls [])] s"

subsection \<open>Conversion of the argument of setSize\<close>

text \<open>
  \<open>mate::Dictionary\<close> and the converters of \<open>bool\<close> and \<open>gfx::Size\<close> are not in this
  file. A dictionary is given by what \<open>Get\<close> returns for a key at each of the two types:
  \<open>None\<close> when the key is absent or its value does not convert. The argument of
  \<open>FromV8\<close> is \<open>None\<close> when the value does not convert to a dictionary.
\<close>

record Dictionary =
  Get_bool :: "string \<Rightarrow> bool option"
  Get_Size :: "string \<Rightarrow> Size option"

definition FromV8 :: "Dictionary option \<Rightarrow> SetSizeParams \<Rightarrow> bool \<times> SetSizeParams" where
  "FromV8 val out =
     (case val of
        None \<Rightarrow> (False, out)
      | Some params \<Rightarrow>
          (let out1 = (case Get_bool params ''enableAutoSize'' of
                         Some autosize \<Rightarrow> out\<lparr>enable_auto_size := Some True\<rparr>
                       | None \<Rightarrow> out);
               out2 = (case Get_Size params ''min'' of
                         Some sz \<Rightarrow> out1\<lparr>min_size := Some sz\<rparr>
                       | None \<Rightarrow> out1);
               out3 = (case Get_Size params ''max'' of
                         Some sz \<Rightarrow> out2\<lparr>max_size := Some sz\<rparr>
                       | None \<Rightarrow> out2);
               out4 = (case Get_Size params ''normal'' of
                         Some sz \<Rightarrow> out3\<lparr>normal_size := Some sz\<rparr>
                       | None \<Rightarrow> out3)
           in (True, out4)))"

subsection \<open>Sequences of calls\<close>




text \<open>The states after each call of a sequence of \<open>SetSize\<close> calls, up to the first fault.\<close>

fun SetSize_trace :: "(engine \<times> SetSizeParams) list \<Rightarrow> WebContents \<Rightarrow> WebContents list" where
  "SetSize_trace [] s = []"
| "SetSize_trace ((eng, params) # ps) s =
     (case SetSize eng params s of
        Inl e \<Rightarrow> []
      | Inr s' \<Rightarrow> s' # SetSize_trace ps s')"

text \<open>\<open>Destroy\<close> called several times in a row, once for each state of the engine listed.\<close>

fun Destroy_times :: "engine list \<Rightarrow> WebContents \<Rightarrow> fault + WebContents" where
  "Destroy_times [] s = Inr s"
| "Destroy_times (eng # engs) s =
     (case Destroy eng s of Inl e \<Rightarrow> Inl e | Inr s' \<Rightarrow> Destroy_times engs s')"

definition count_emitted :: "string \<Rightarrow> WebContents \<Rightarrow> nat" where
  "count_emitted name s = length (filter (\<lambda>ev. fst ev = name) (emitted s))"

subsection \<open>The fixed-size target as the specification words it\<close>

text \<open>
  The specification's step 7, for comparison with \<open>SetSize\<close>: a normal size of which only
  the width is nonzero takes the default height, one of which only the height is nonzero
  takes the default width; the target is the normal size if it is not empty, else the
  last known guest size if it is not empty, else the default size.
\<close>

definition spec_fill_normal :: "Size \<Rightarrow> Size \<Rightarrow> Size" where
  "spec_fill_normal n d =
     (if width n \<noteq> 0 \<and> height n = 0 then \<lparr>width = width n, height = height d\<rparr>
      else if width n = 0 \<and> height n \<noteq> 0 then \<lparr>width = width d, height = height n\<rparr>
      else n)"

definition spec_target :: "Size \<Rightarrow> Size \<Rightarrow> Size \<Rightarrow> Size" where
  "spec_target n g d = (if \<not> IsEmpty n then n else if \<not> IsEmpty g then g else d)"

subsection \<open>Example controllers\<close>

definition engine0 :: engine where
  "engine0 =
     \<lparr>GetVisibleViewportSize = (\<lambda>wc. Some \<lparr>width = 800, height = 600\<rparr>),
      rvh_process_id = (\<lambda>wc. 3),
      rvh_routing_id = (\<lambda>wc. 1)\<rparr>"

text \<open>A guest created from options, after the engine has given it its guest host.\<close>

definition guest0 :: WebContents where
  "guest0 =
     SetGuestHost (Some 7) (Create \<lparr>guestInstanceId = Some 1, isGuest = Some True\<rparr> 5 None)"

text \<open>A controller wrapping the existing web contents of a top-level window.\<close>

definition wrapper0 :: WebContents where
  "wrapper0 = CreateFrom (Some 9) None"

section \<open>Properties\<close>

subsection \<open>Facts about SetSize\<close>

lemma Size_le_SetToMin_SetToMax: "Size_le (SetToMin a b) (SetToMax b a)"
  by (simp add: Size_le_def SetToMin_def SetToMax_def)

lemma Size_update_all [simp]:
  "(sz::Size)\<lparr>width := w, height := h\<rparr> = \<lparr>width = w, height = h\<rparr>"
  by (cases sz) simp

lemma GetDefaultSize_normal_size [simp]:
  "GetDefaultSize eng (s\<lparr>normal_size' := n\<rparr>) = GetDefaultSize eng s"
  by (simp add: GetDefaultSize_def)

lemma GetDefaultSize_sizes [simp]:
  "GetDefaultSize eng (s\<lparr>min_auto_size' := a\<rparr>) = GetDefaultSize eng s"
  "GetDefaultSize eng (s\<lparr>max_auto_size' := b\<rparr>) = GetDefaultSize eng s"
  by (simp_all add: GetDefaultSize_def)

lemma fill_normal_height_result:
  assumes "fill_normal_height eng s = Inr s1"
  shows "\<exists>n. s1 = s\<lparr>normal_size' := n\<rparr> \<and>
           (\<forall>d. GetDefaultSize eng s = Inr d \<longrightarrow>
              n = (if width (normal_size' s) \<noteq> 0 \<and> height (normal_size' s) = 0
                   then \<lparr>width = width (normal_size' s), height = height d\<rparr>
                   else normal_size' s))"
proof (cases "width (normal_size' s) \<noteq> 0 \<and> height (normal_size' s) = 0")
  case True
  with assms obtain d where d: "GetDefaultSize eng s = Inr d"
    and s1: "s1 = s\<lparr>normal_size' := set_height (height d) (normal_size' s)\<rparr>"
    by (auto simp: fill_normal_height_def split: sum.splits)
  have "set_height (height d) (normal_size' s) = \<lparr>width = width (normal_size' s), height = height d\<rparr>"
    by (simp add: set_height_def)
  with True d s1 show ?thesis by auto
next
  case False
  with assms have "s1 = s" by (auto simp: fill_normal_height_def)
  then have "s1 = s\<lparr>normal_size' := normal_size' s\<rparr>" by simp
  with False show ?thesis by metis
qed

lemma fill_normal_width_result:
  assumes "fill_normal_width eng s = Inr s1"
  shows "\<exists>n. s1 = s\<lparr>normal_size' := n\<rparr> \<and>
           (\<forall>d. GetDefaultSize eng s = Inr d \<longrightarrow>
              n = (if width (normal_size' s) = 0 \<and> height (normal_size' s) \<noteq> 0
                   then \<lparr>width = width d, height = height (normal_size' s)\<rparr>
                   else normal_size' s))"
proof (cases "width (normal_size' s) = 0 \<and> height (normal_size' s) \<noteq> 0")
  case True
  with assms obtain d where d: "GetDefaultSize eng s = Inr d"
    and s1: "s1 = s\<lparr>normal_size' := set_width (width d) (normal_size' s)\<rparr>"
    by (auto simp: fill_normal_width_def split: sum.splits)
  have "set_width (width d) (normal_size' s) = \<lparr>width = width d, height = height (normal_size' s)\<rparr>"
    by (simp add: set_width_def)
  with True d s1 show ?thesis by auto
next
  case False
  with assms have "s1 = s" by (auto simp: fill_normal_width_def)
  then have "s1 = s\<lparr>normal_size' := normal_size' s\<rparr>" by simp
  with False show ?thesis by metis
qed


lemma fill_normal_result:
  assumes "fill_normal_height eng s = Inr s1" and "fill_normal_width eng s1 = Inr s2"
  shows "\<exists>n. s2 = s\<lparr>normal_size' := n\<rparr> \<and>
           (\<forall>d. GetDefaultSize eng s = Inr d \<longrightarrow> n = spec_fill_normal (normal_size' s) d)"
proof -
  from fill_normal_height_result [OF assms(1)] obtain n1 where
    s1: "s1 = s\<lparr>normal_size' := n1\<rparr>" and
    n1: "\<And>d. GetDefaultSize eng s = Inr d \<Longrightarrow>
              n1 = (if width (normal_size' s) \<noteq> 0 \<and> height (normal_size' s) = 0
                   then \<lparr>width = width (normal_size' s), height = height d\<rparr>
                   else normal_size' s)"
    by blast
  from fill_normal_width_result [OF assms(2)] obtain n2 where
    s2: "s2 = s1\<lparr>normal_size' := n2\<rparr>" and
    n2: "\<And>d. GetDefaultSize eng s1 = Inr d \<Longrightarrow>
              n2 = (if width (normal_size' s1) = 0 \<and> height (normal_size' s1) \<noteq> 0
                   then \<lparr>width = width d, height = height (normal_size' s1)\<rparr>
                   else normal_size' s1)"
    by blast
  have "s2 = s\<lparr>normal_size' := n2\<rparr>" using s1 s2 by simp
  moreover have "n2 = spec_fill_normal (normal_size' s) d" if d: "GetDefaultSize eng s = Inr d" for d
  proof -
    have "GetDefaultSize eng s1 = Inr d" using d s1 by simp
    from n2 [OF this] n1 [OF d] s1 show ?thesis
      by (simp add: spec_fill_normal_def split: if_splits)
  qed
  ultimately show ?thesis by blast
qed

lemma choose_new_size_result:
  assumes "choose_new_size eng s = Inr n" and "GetDefaultSize eng s = Inr d"
  shows "n = spec_target (normal_size' s) (guest_size' s) d"
  using assms by (auto simp: choose_new_size_def spec_target_def split: if_splits)

lemma SetSize_fixed_result:
  assumes "SetSize_fixed eng rvh s = Inr u"
  obtains s1 s2 n where "fill_normal_height eng s = Inr s1" and "fill_normal_width eng s1 = Inr s2"
    and "choose_new_size eng s2 = Inr n" and "guest_size' u = n"
    and "normal_size' u = normal_size' s2"
    and "min_auto_size' u = min_auto_size' s2" and "max_auto_size' u = max_auto_size' s2"
    and "web_contents u = web_contents s2" and "storage' u = storage' s2"
  using assms
  by (auto simp: SetSize_fixed_def GuestSizeChangedDueToAutoSize_def Emit_def request_def
      split: sum.splits if_splits option.splits)

lemma SetSize_fixed_frame:
  assumes "SetSize_fixed eng rvh s = Inr u"
  shows "min_auto_size' u = min_auto_size' s" and "max_auto_size' u = max_auto_size' s"
    and "web_contents u = web_contents s" and "storage' u = storage' s"
proof -
  from assms obtain s1 s2 where f: "fill_normal_height eng s = Inr s1" "fill_normal_width eng s1 = Inr s2"
    and u: "min_auto_size' u = min_auto_size' s2" "max_auto_size' u = max_auto_size' s2"
      "web_contents u = web_contents s2" "storage' u = storage' s2"
    by (rule SetSize_fixed_result)
  from fill_normal_result [OF f] obtain n where "s2 = s\<lparr>normal_size' := n\<rparr>" by blast
  with u show "min_auto_size' u = min_auto_size' s" and "max_auto_size' u = max_auto_size' s"
    and "web_contents u = web_contents s" and "storage' u = storage' s"
    by simp_all
qed

lemma SetSize_fixed_guest_size:
  assumes "SetSize_fixed eng rvh s = Inr u" and "GetDefaultSize eng s = Inr d"
  shows "guest_size' u = spec_target (spec_fill_normal (normal_size' s) d) (guest_size' s) d"
proof -
  from assms(1) obtain s1 s2 n where f: "fill_normal_height eng s = Inr s1" "fill_normal_width eng s1 = Inr s2"
    and c: "choose_new_size eng s2 = Inr n" and u: "guest_size' u = n"
    by (rule SetSize_fixed_result)
  from fill_normal_result [OF f] assms(2) have s2: "s2 = s\<lparr>normal_size' := spec_fill_normal (normal_size' s) d\<rparr>"
    by blast
  then have "GetDefaultSize eng s2 = Inr d" using assms(2) by simp
  from choose_new_size_result [OF c this] s2 u show ?thesis by simp
qed

lemma SetSize_fixed_no_normal:
  assumes "SetSize_fixed eng rvh s = Inr u" and "normal_size' s = \<lparr>width = 0, height = 0\<rparr>"
  shows "if \<not> IsEmpty (guest_size' s) then guest_size' u = guest_size' s
         else GetDefaultSize eng s = Inr (guest_size' u)"
proof -
  from assms(1) obtain s1 s2 n where f: "fill_normal_height eng s = Inr s1" "fill_normal_width eng s1 = Inr s2"
    and c: "choose_new_size eng s2 = Inr n" and u: "guest_size' u = n"
    by (rule SetSize_fixed_result)
  from f(1) assms(2) have "s1 = s" by (simp add: fill_normal_height_def)
  with f(2) assms(2) have "s2 = s" by (simp add: fill_normal_width_def)
  with c u assms(2) show ?thesis
    by (auto simp: choose_new_size_def IsEmpty_def split: if_splits)
qed


lemma SetSize_cases [consumes 1, case_names auto_size fixed]:
  assumes "SetSize eng params s = Inr t"
  obtains (auto_size) rvh where "web_contents s = Some rvh"
      and "case enable_auto_size params of Some b \<Rightarrow> b | None \<Rightarrow> auto_size_enabled' s"
      and "t = s\<lparr>normal_size' := \<lparr>width = 0, height = 0\<rparr>,
                 min_auto_size' := SetToMin (case min_size params of Some m \<Rightarrow> m | None \<Rightarrow> min_auto_size' s)
                 (case max_size params of Some m \<Rightarrow> m | None \<Rightarrow> max_auto_size' s),
                 max_auto_size' := SetToMax (case max_size params of Some m \<Rightarrow> m | None \<Rightarrow> max_auto_size' s)
                 (case min_size params of Some m \<Rightarrow> m | None \<Rightarrow> min_auto_size' s),
                 engine_calls := engine_calls s @ [EnableAutoResize rvh (SetToMin (case min_size params of Some m \<Rightarrow> m | None \<Rightarrow> min_auto_size' s)
                 (case max_size params of Some m \<Rightarrow> m | None \<Rightarrow> max_auto_size' s)) (SetToMax (case max_size params of Some m \<Rightarrow> m | None \<Rightarrow> max_auto_size' s)
                 (case min_size params of Some m \<Rightarrow> m | None \<Rightarrow> min_auto_size' s))],
                 auto_size_enabled' := True\<rparr>"
      and "\<not> IsEmpty (SetToMin (case min_size params of Some m \<Rightarrow> m | None \<Rightarrow> min_auto_size' s)
                 (case max_size params of Some m \<Rightarrow> m | None \<Rightarrow> max_auto_size' s))" and "\<not> IsEmpty (SetToMax (case max_size params of Some m \<Rightarrow> m | None \<Rightarrow> max_auto_size' s)
                 (case min_size params of Some m \<Rightarrow> m | None \<Rightarrow> min_auto_size' s))"
  | (fixed) rvh u where "web_contents s = Some rvh"
      and "\<not> ((case enable_auto_size params of Some b \<Rightarrow> b | None \<Rightarrow> auto_size_enabled' s) \<and>
              \<not> IsEmpty (SetToMin (case min_size params of Some m \<Rightarrow> m | None \<Rightarrow> min_auto_size' s)
                 (case max_size params of Some m \<Rightarrow> m | None \<Rightarrow> max_auto_size' s)) \<and> \<not> IsEmpty (SetToMax (case max_size params of Some m \<Rightarrow> m | None \<Rightarrow> max_auto_size' s)
                 (case min_size params of Some m \<Rightarrow> m | None \<Rightarrow> min_auto_size' s)))"
      and "SetSize_fixed eng rvh
             (s\<lparr>normal_size' := (case normal_size params of Some n \<Rightarrow> n | None \<Rightarrow> normal_size' s),
                min_auto_size' := SetToMin (case min_size params of Some m \<Rightarrow> m | None \<Rightarrow> min_auto_size' s)
                 (case max_size params of Some m \<Rightarrow> m | None \<Rightarrow> max_auto_size' s),
                max_auto_size' := SetToMax (case max_size params of Some m \<Rightarrow> m | None \<Rightarrow> max_auto_size' s)
                 (case min_size params of Some m \<Rightarrow> m | None \<Rightarrow> min_auto_size' s)\<rparr>) = Inr u"
      and "t = u\<lparr>auto_size_enabled' := False\<rparr>"
proof -
  from assms obtain rvh where rvh: "web_contents s = Some rvh"
    by (auto simp: SetSize_def Let_def split: option.splits)
  have s1: "(case normal_size params of Some n \<Rightarrow> s\<lparr>normal_size' := n\<rparr> | None \<Rightarrow> s)
        = s\<lparr>normal_size' := (case normal_size params of Some n \<Rightarrow> n | None \<Rightarrow> normal_size' s)\<rparr>"
    by (simp split: option.splits)
  show ?thesis
  proof (cases "(case enable_auto_size params of Some b \<Rightarrow> b | None \<Rightarrow> auto_size_enabled' s) \<and>
              \<not> IsEmpty (SetToMin (case min_size params of Some m \<Rightarrow> m | None \<Rightarrow> min_auto_size' s)
                 (case max_size params of Some m \<Rightarrow> m | None \<Rightarrow> max_auto_size' s)) \<and> \<not> IsEmpty (SetToMax (case max_size params of Some m \<Rightarrow> m | None \<Rightarrow> max_auto_size' s)
                 (case min_size params of Some m \<Rightarrow> m | None \<Rightarrow> min_auto_size' s))")
    case True
    with assms rvh have "t = s\<lparr>normal_size' := \<lparr>width = 0, height = 0\<rparr>,
                 min_auto_size' := SetToMin (case min_size params of Some m \<Rightarrow> m | None \<Rightarrow> min_auto_size' s)
                 (case max_size params of Some m \<Rightarrow> m | None \<Rightarrow> max_auto_size' s),
                 max_auto_size' := SetToMax (case max_size params of Some m \<Rightarrow> m | None \<Rightarrow> max_auto_size' s)
                 (case min_size params of Some m \<Rightarrow> m | None \<Rightarrow> min_auto_size' s),
                 engine_calls := engine_calls s @ [EnableAutoResize rvh (SetToMin (case min_size params of Some m \<Rightarrow> m | None \<Rightarrow> min_auto_size' s)
                 (case max_size params of Some m \<Rightarrow> m | None \<Rightarrow> max_auto_size' s)) (SetToMax (case max_size params of Some m \<Rightarrow> m | None \<Rightarrow> max_auto_size' s)
                 (case min_size params of Some m \<Rightarrow> m | None \<Rightarrow> min_auto_size' s))],
                 auto_size_enabled' := True\<rparr>"
      unfolding SetSize_def Let_def s1
      by (auto simp: request_def Size_SetSize_def set_width_def set_height_def)
    with True rvh show ?thesis by (intro auto_size) simp_all
  next
    case False
    with assms rvh obtain u where "SetSize_fixed eng rvh
             (s\<lparr>normal_size' := (case normal_size params of Some n \<Rightarrow> n | None \<Rightarrow> normal_size' s),
                min_auto_size' := SetToMin (case min_size params of Some m \<Rightarrow> m | None \<Rightarrow> min_auto_size' s)
                 (case max_size params of Some m \<Rightarrow> m | None \<Rightarrow> max_auto_size' s),
                max_auto_size' := SetToMax (case max_size params of Some m \<Rightarrow> m | None \<Rightarrow> max_auto_size' s)
                 (case min_size params of Some m \<Rightarrow> m | None \<Rightarrow> min_auto_size' s)\<rparr>) = Inr u" and "t = u\<lparr>auto_size_enabled' := False\<rparr>"
      unfolding SetSize_def Let_def s1
      by (auto split: sum.splits)
    with False rvh show ?thesis by (intro fixed)
  qed
qed

lemma SetSize_sizes:
  assumes "SetSize eng params s = Inr t"
  shows "min_auto_size' t = SetToMin (case min_size params of Some m \<Rightarrow> m | None \<Rightarrow> min_auto_size' s)
                 (case max_size params of Some m \<Rightarrow> m | None \<Rightarrow> max_auto_size' s)"
    and "max_auto_size' t = SetToMax (case max_size params of Some m \<Rightarrow> m | None \<Rightarrow> max_auto_size' s)
                 (case min_size params of Some m \<Rightarrow> m | None \<Rightarrow> min_auto_size' s)"
    and "web_contents t = web_contents s" and "storage' t = storage' s"
  using assms
  by (cases rule: SetSize_cases; simp add: SetSize_fixed_frame)+

lemma SetSize_auto_normal_size:
  assumes "SetSize eng params s = Inr t" and "auto_size_enabled' t"
  shows "normal_size' t = \<lparr>width = 0, height = 0\<rparr>" and "guest_size' t = guest_size' s"
  using assms by (cases rule: SetSize_cases; simp)+

lemma SetSize_fixed_path:
  assumes "SetSize eng params s = Inr t" and "\<not> auto_size_enabled' t"
  obtains rvh u where "SetSize_fixed eng rvh
             (s\<lparr>normal_size' := (case normal_size params of Some n \<Rightarrow> n | None \<Rightarrow> normal_size' s),
                min_auto_size' := SetToMin (case min_size params of Some m \<Rightarrow> m | None \<Rightarrow> min_auto_size' s)
                 (case max_size params of Some m \<Rightarrow> m | None \<Rightarrow> max_auto_size' s),
                max_auto_size' := SetToMax (case max_size params of Some m \<Rightarrow> m | None \<Rightarrow> max_auto_size' s)
                 (case min_size params of Some m \<Rightarrow> m | None \<Rightarrow> min_auto_size' s)\<rparr>) = Inr u" and "guest_size' t = guest_size' u"
  using assms by (cases rule: SetSize_cases) simp_all

lemma SetSize_no_normal_target:
  assumes "SetSize eng params s = Inr t" and "\<not> auto_size_enabled' t"
    and "normal_size params = None" and "normal_size' s = \<lparr>width = 0, height = 0\<rparr>"
  shows "if \<not> IsEmpty (guest_size' s) then guest_size' t = guest_size' s
         else GetDefaultSize eng s = Inr (guest_size' t)"
proof -
  from assms(1,2) obtain rvh u where u: "SetSize_fixed eng rvh
             (s\<lparr>normal_size' := (case normal_size params of Some n \<Rightarrow> n | None \<Rightarrow> normal_size' s),
                min_auto_size' := SetToMin (case min_size params of Some m \<Rightarrow> m | None \<Rightarrow> min_auto_size' s)
                 (case max_size params of Some m \<Rightarrow> m | None \<Rightarrow> max_auto_size' s),
                max_auto_size' := SetToMax (case max_size params of Some m \<Rightarrow> m | None \<Rightarrow> max_auto_size' s)
                 (case min_size params of Some m \<Rightarrow> m | None \<Rightarrow> min_auto_size' s)\<rparr>) = Inr u" and g: "guest_size' t = guest_size' u"
    by (rule SetSize_fixed_path)
  from SetSize_fixed_no_normal [OF u] assms(3,4) g show ?thesis
    by (simp split: if_splits)
qed

lemma guest0_simps:
  "guest0 = \<lparr>web_contents = Some 5,
      storage' = Some 5,
      guest_instance_id' = 1,
      guest_opaque' = True,
      guest_host' = Some 7,
      auto_size_enabled' = False,
      is_full_page_plugin' = False,
      embedder_web_contents' = None,
      min_auto_size' = \<lparr>width = 0, height = 0\<rparr>,
      max_auto_size' = \<lparr>width = 0, height = 0\<rparr>,
      normal_size' = \<lparr>width = 0, height = 0\<rparr>,
      guest_size' = \<lparr>width = 0, height = 0\<rparr>,
      emitted = [],
      engine_calls = [InspectableWebContents_Create 5 True, SetDelegate 5]\<rparr>"
  by (simp add: guest0_def Create_def SetGuestHost_def)

lemmas SetSize_eval =
  SetSize_def SetSize_fixed_def fill_normal_height_def fill_normal_width_def
  choose_new_size_def GetDefaultSize_def kDefaultWidth_def kDefaultHeight_def
  GuestSizeChangedDueToAutoSize_def Emit_def request_def IsEmpty_def SetToMin_def SetToMax_def
  set_width_def set_height_def Size_SetSize_def Let_def

text \<open>
  \<open>SetSize\<close> returns whenever the controller observes a web contents, the default size
  can be queried, and a guest host is set or auto-size was enabled before the call.
\<close>

lemma SetSize_fixed_returns:
  assumes "GetDefaultSize eng s = Inr d" and "guest_host' s \<noteq> None \<or> auto_size_enabled' s"
  shows "\<exists>u. SetSize_fixed eng rvh s = Inr u"
proof -
  have "\<exists>s1. fill_normal_height eng s = Inr s1"
    using assms(1) by (simp add: fill_normal_height_def)
  then obtain s1 where s1: "fill_normal_height eng s = Inr s1" by blast
  from fill_normal_height_result [OF s1] obtain n1 where e1: "s1 = s\<lparr>normal_size' := n1\<rparr>"
    by blast
  then have d1: "GetDefaultSize eng s1 = Inr d" using assms(1) by simp
  have "\<exists>s2. fill_normal_width eng s1 = Inr s2"
    using d1 by (simp add: fill_normal_width_def)
  then obtain s2 where s2: "fill_normal_width eng s1 = Inr s2" by blast
  from fill_normal_width_result [OF s2] obtain n2 where e2: "s2 = s1\<lparr>normal_size' := n2\<rparr>"
    by blast
  then have d2: "GetDefaultSize eng s2 = Inr d" using d1 by simp
  have "\<exists>n. choose_new_size eng s2 = Inr n"
    using d2 by (simp add: choose_new_size_def)
  then obtain n where n: "choose_new_size eng s2 = Inr n" by blast
  from e1 e2 assms(2) have "guest_host' s2 \<noteq> None \<or> auto_size_enabled' s2" by simp
  then show ?thesis
    by (auto simp: SetSize_fixed_def s1 s2 n)
qed

lemma SetSize_returns:
  assumes "web_contents s \<noteq> None" and "GetDefaultSize eng s = Inr d"
    and "guest_host' s \<noteq> None \<or> auto_size_enabled' s"
  shows "\<exists>t. SetSize eng params s = Inr t"
proof -
  from assms(1) obtain rvh where rvh: "web_contents s = Some rvh" by auto
  let ?s3 = "(case normal_size params of Some n \<Rightarrow> s\<lparr>normal_size' := n\<rparr> | None \<Rightarrow> s)
      \<lparr>min_auto_size' := SetToMin (case min_size params of Some m \<Rightarrow> m | None \<Rightarrow> min_auto_size' s)
                 (case max_size params of Some m \<Rightarrow> m | None \<Rightarrow> max_auto_size' s),
       max_auto_size' := SetToMax (case max_size params of Some m \<Rightarrow> m | None \<Rightarrow> max_auto_size' s)
                 (case min_size params of Some m \<Rightarrow> m | None \<Rightarrow> min_auto_size' s)\<rparr>"
  have "GetDefaultSize eng ?s3 = Inr d" and "guest_host' ?s3 \<noteq> None \<or> auto_size_enabled' ?s3"
    using assms(2,3) by (simp_all split: option.splits)
  from SetSize_fixed_returns [OF this, of rvh] obtain u where "SetSize_fixed eng rvh ?s3 = Inr u"
    by blast
  then show ?thesis
    by (cases "normal_size params") (auto simp: SetSize_def Let_def rvh)
qed

subsection \<open>Facts about Destroy and sequences of calls\<close>

lemma Destroy_owner:
  assumes "storage' s = Some st" and "web_contents s = Some wc" and "guest_host' s = Some gh"
  shows "Destroy eng s =
     Inr (s\<lparr>emitted := emitted s @
               [(''render-view-deleted'', [IntArg (rvh_process_id eng wc), IntArg (rvh_routing_id eng wc)]),
                (''destroyed'', [])],
            engine_calls := engine_calls s @ [WillDestroy gh],
            guest_host' := None, web_contents := None, storage' := None\<rparr>)"
  using assms
  by (simp add: Destroy_def WebContentsDestroyed_def RenderViewDeleted_def Emit_def request_def)

lemma Destroy_released: "storage' s = None \<Longrightarrow> Destroy eng s = Inr s"
  by (simp add: Destroy_def)

lemma Destroy_times_released: "storage' s = None \<Longrightarrow> Destroy_times engs s = Inr s"
  by (induction engs) (simp_all add: Destroy_released)




lemma Destroy_null_guest_host:
  assumes "storage' s \<noteq> None" and "web_contents s \<noteq> None" and "guest_host' s = None"
  shows "Destroy eng s = Inl NullDereference"
  using assms
  by (auto simp: Destroy_def WebContentsDestroyed_def RenderViewDeleted_def Emit_def)


subsection \<open>Facts about the set of favicon URLs\<close>

lemma set_insert_subset: "set (set_insert u xs) \<subseteq> insert u (set xs)"
  by (induction xs) auto

lemma set_insert_specs: "spec ` set (set_insert u xs) = insert (spec u) (spec ` set xs)"
proof (induction xs)
  case Nil
  then show ?case by simp
next
  case (Cons v vs)
  show ?case
  proof (cases "spec u < spec v")
    case True
    then show ?thesis by simp
  next
    case False
    show ?thesis
    proof (cases "spec v < spec u")
      case True
      with False Cons.IH show ?thesis by auto
    next
      case nlt: False
      with False have "spec u = spec v" by simp
      with False nlt show ?thesis by auto
    qed
  qed
qed

lemma set_insert_sorted:
  assumes "sorted_wrt (\<lambda>a b. spec a < spec b) xs"
  shows "sorted_wrt (\<lambda>a b. spec a < spec b) (set_insert u xs)"
  using assms
proof (induction xs)
  case Nil
  then show ?case by simp
next
  case (Cons v vs)
  show ?case
  proof (cases "spec u < spec v")
    case True
    with Cons.prems show ?thesis by auto
  next
    case False
    show ?thesis
    proof (cases "spec v < spec u")
      case True
      have "\<forall>x \<in> set (set_insert u vs). spec v < spec x"
        using set_insert_subset [of u vs] True Cons.prems by auto
      with False True Cons show ?thesis by simp
    next
      case nlt: False
      with False Cons.prems show ?thesis by simp
    qed
  qed
qed

lemma sorted_specs_distinct:
  "sorted_wrt (\<lambda>a b. spec a < spec b) xs \<Longrightarrow> distinct (map spec xs)"
  by (induction xs) auto

lemma collect_favicons_subset:
  "set (collect_favicons urls acc) \<subseteq>
     set acc \<union> icon_url ` {f \<in> set urls. icon_type f = FAVICON \<and> is_valid (icon_url f)}"
proof (induction urls arbitrary: acc)
  case Nil
  then show ?case by simp
next
  case (Cons f fs)
  show ?case
  proof (cases "icon_type f = FAVICON \<and> is_valid (icon_url f)")
    case True
    with Cons.IH [of "set_insert (icon_url f) acc"] set_insert_subset [of "icon_url f" acc]
    show ?thesis by auto
  next
    case False
    with Cons.IH [of acc] show ?thesis by auto
  qed
qed

lemma collect_favicons_specs:
  "spec ` set (collect_favicons urls acc) =
     spec ` set acc \<union>
     spec ` icon_url ` {f \<in> set urls. icon_type f = FAVICON \<and> is_valid (icon_url f)}"
proof (induction urls arbitrary: acc)
  case Nil
  then show ?case by simp
next
  case (Cons f fs)
  show ?case
  proof (cases "icon_type f = FAVICON \<and> is_valid (icon_url f)")
    case True
    have "{g \<in> set (f # fs). icon_type g = FAVICON \<and> is_valid (icon_url g)} =
          insert f {g \<in> set fs. icon_type g = FAVICON \<and> is_valid (icon_url g)}"
      using True by auto
    with True Cons.IH [of "set_insert (icon_url f) acc"] set_insert_specs [of "icon_url f" acc]
    show ?thesis by simp
  next
    case False
    have "{g \<in> set (f # fs). icon_type g = FAVICON \<and> is_valid (icon_url g)} =
          {g \<in> set fs. icon_type g = FAVICON \<and> is_valid (icon_url g)}"
      using False by auto
    with False Cons.IH [of acc] show ?thesis by auto
  qed
qed

lemma collect_favicons_sorted:
  "sorted_wrt (\<lambda>a b. spec a < spec b) acc \<Longrightarrow>
   sorted_wrt (\<lambda>a b. spec a < spec b) (collect_favicons urls acc)"
  by (induction urls arbitrary: acc) (simp_all add: set_insert_sorted)

subsection \<open>The claims\<close>

text \<open>
  Claim C1, as amended. After a call of \<open>SetSize\<close> that returns, auto-size is enabled
  exactly when the request resolved at the start of the call (the value the caller
  passed, or the stored flag when the caller passed none) is true and the clamped
  minimum and maximum sizes are both non-empty. The request is not overridden: the code
  combines it with the two emptiness tests by a conjunction.
\<close>

theorem SetSize_auto_size_enabled_iff:
  assumes "SetSize eng params s = Inr t"
  shows "auto_size_enabled' t =
     ((case enable_auto_size params of Some b \<Rightarrow> b | None \<Rightarrow> auto_size_enabled' s) \<and>
      \<not> IsEmpty (min_auto_size' t) \<and> \<not> IsEmpty (max_auto_size' t))"
  using assms
proof (cases rule: SetSize_cases)
  case (auto_size rvh)
  then show ?thesis by simp
next
  case (fixed rvh u)
  from SetSize_fixed_frame(1,2) [OF fixed(3)] fixed(2,4) show ?thesis by simp
qed

theorem SetSize_auto_size_enabled_iff_witness:
  "SetSize engine0
     \<lparr>enable_auto_size = Some True,
      min_size = Some \<lparr>width = 50, height = 50\<rparr>,
      max_size = Some \<lparr>width = 10, height = 10\<rparr>,
      normal_size = None\<rparr> guest0
   = Inr (guest0
       \<lparr>min_auto_size' := \<lparr>width = 10, height = 10\<rparr>,
        max_auto_size' := \<lparr>width = 50, height = 50\<rparr>,
        engine_calls := engine_calls guest0 @
          [EnableAutoResize 5 \<lparr>width = 10, height = 10\<rparr> \<lparr>width = 50, height = 50\<rparr>],
        auto_size_enabled' := True\<rparr>)
   \<and> auto_size_enabled' (guest0
       \<lparr>min_auto_size' := \<lparr>width = 10, height = 10\<rparr>,
        max_auto_size' := \<lparr>width = 50, height = 50\<rparr>,
        engine_calls := engine_calls guest0 @
          [EnableAutoResize 5 \<lparr>width = 10, height = 10\<rparr> \<lparr>width = 50, height = 50\<rparr>],
        auto_size_enabled' := True\<rparr>)
     = (True \<and> \<not> IsEmpty \<lparr>width = 10, height = 10\<rparr> \<and> \<not> IsEmpty \<lparr>width = 50, height = 50\<rparr>)"
proof -
  have h: "SetSize engine0
     \<lparr>enable_auto_size = Some True,
      min_size = Some \<lparr>width = 50, height = 50\<rparr>,
      max_size = Some \<lparr>width = 10, height = 10\<rparr>,
      normal_size = None\<rparr> guest0
   = Inr (guest0
       \<lparr>min_auto_size' := \<lparr>width = 10, height = 10\<rparr>,
        max_auto_size' := \<lparr>width = 50, height = 50\<rparr>,
        engine_calls := engine_calls guest0 @
          [EnableAutoResize 5 \<lparr>width = 10, height = 10\<rparr> \<lparr>width = 50, height = 50\<rparr>],
        auto_size_enabled' := True\<rparr>)"
    by (simp add: guest0_simps SetSize_eval)
  from SetSize_auto_size_enabled_iff [OF h] h show ?thesis by simp
qed

text \<open>
  The claim as stated fails: on a fresh guest (stored flag false) a call that passes only
  a non-empty minimum and maximum leaves auto-size disabled, and takes the fixed-size
  path with the default size.
\<close>

theorem SetSize_enabled_iff_nonempty_counterexample:
  "SetSize engine0
     \<lparr>enable_auto_size = None,
      min_size = Some \<lparr>width = 10, height = 10\<rparr>,
      max_size = Some \<lparr>width = 20, height = 20\<rparr>,
      normal_size = None\<rparr> guest0
   = Inr (guest0
       \<lparr>min_auto_size' := \<lparr>width = 10, height = 10\<rparr>,
        max_auto_size' := \<lparr>width = 20, height = 20\<rparr>,
        guest_size' := \<lparr>width = 300, height = 300\<rparr>,
        engine_calls := engine_calls guest0 @ [SizeContents 7 \<lparr>width = 300, height = 300\<rparr>],
        auto_size_enabled' := False\<rparr>)
   \<and> \<not> IsEmpty \<lparr>width = 10, height = 10\<rparr> \<and> \<not> IsEmpty \<lparr>width = 20, height = 20\<rparr>"
  by (simp add: guest0_simps SetSize_eval)

text \<open>
  Claim C2, as amended. A controller that owns its web contents (\<open>storage_\<close> set and the
  web contents observed, as after construction from options) and has a guest host can be
  destroyed any number of times: no call faults, the calls together emit \<open>destroyed\<close>
  exactly once, and the state after all of them is the state after the first. On a
  controller whose \<open>storage_\<close> is empty (one that wraps an existing web contents, or one
  already destroyed) every call of \<open>Destroy\<close> changes nothing and emits nothing.
\<close>

theorem Destroy_idempotent:
  "(storage' s = None \<longrightarrow> Destroy_times engs s = Inr s) \<and>
   (storage' s \<noteq> None \<and> web_contents s \<noteq> None \<and> guest_host' s \<noteq> None \<longrightarrow>
      (\<exists>s1. Destroy eng s = Inr s1 \<and> Destroy_times (eng # engs) s = Inr s1 \<and>
            count_emitted ''destroyed'' s1 = Suc (count_emitted ''destroyed'' s)))"
proof (intro conjI impI)
  assume "storage' s = None"
  then show "Destroy_times engs s = Inr s" by (rule Destroy_times_released)
next
  assume "storage' s \<noteq> None \<and> web_contents s \<noteq> None \<and> guest_host' s \<noteq> None"
  then obtain st wc gh where h: "storage' s = Some st" "web_contents s = Some wc" "guest_host' s = Some gh"
    by auto
  define s1 where "s1 = s\<lparr>emitted := emitted s @
               [(''render-view-deleted'', [IntArg (rvh_process_id eng wc), IntArg (rvh_routing_id eng wc)]),
                (''destroyed'', [])],
            engine_calls := engine_calls s @ [WillDestroy gh],
            guest_host' := None, web_contents := None, storage' := None\<rparr>"
  have d: "Destroy eng s = Inr s1" unfolding s1_def by (rule Destroy_owner [OF h])
  have r: "storage' s1 = None" by (simp add: s1_def)
  have "Destroy_times (eng # engs) s = Inr s1"
    by (simp add: d Destroy_times_released [OF r])
  moreover have "count_emitted ''destroyed'' s1 = Suc (count_emitted ''destroyed'' s)"
    by (simp add: s1_def count_emitted_def)
  ultimately show "\<exists>s1. Destroy eng s = Inr s1 \<and> Destroy_times (eng # engs) s = Inr s1 \<and>
            count_emitted ''destroyed'' s1 = Suc (count_emitted ''destroyed'' s)"
    using d by blast
qed

theorem Destroy_idempotent_witness:
  "storage' guest0 \<noteq> None \<and> web_contents guest0 \<noteq> None \<and> guest_host' guest0 \<noteq> None \<and>
   Destroy_times [engine0, engine0, engine0] guest0 = Destroy engine0 guest0 \<and>
   Destroy engine0 guest0 =
     Inr (guest0\<lparr>emitted := [(''render-view-deleted'', [IntArg 3, IntArg 1]), (''destroyed'', [])],
            engine_calls := engine_calls guest0 @ [WillDestroy 7],
            guest_host' := None, web_contents := None, storage' := None\<rparr>) \<and>
   count_emitted ''destroyed''
     (guest0\<lparr>emitted := [(''render-view-deleted'', [IntArg 3, IntArg 1]), (''destroyed'', [])],
            engine_calls := engine_calls guest0 @ [WillDestroy 7],
            guest_host' := None, web_contents := None, storage' := None\<rparr>) = 1 \<and>
   storage' wrapper0 = None \<and> Destroy_times [engine0, engine0] wrapper0 = Inr wrapper0"
proof -
  have g: "storage' guest0 \<noteq> None \<and> web_contents guest0 \<noteq> None \<and> guest_host' guest0 \<noteq> None"
    by (simp add: guest0_simps)
  have d: "Destroy engine0 guest0 =
     Inr (guest0\<lparr>emitted := [(''render-view-deleted'', [IntArg 3, IntArg 1]), (''destroyed'', [])],
            engine_calls := engine_calls guest0 @ [WillDestroy 7],
            guest_host' := None, web_contents := None, storage' := None\<rparr>)"
    by (simp add: guest0_simps Destroy_def WebContentsDestroyed_def RenderViewDeleted_def
        Emit_def request_def engine0_def)
  have w: "storage' wrapper0 = None" by (simp add: wrapper0_def CreateFrom_def)
  have e: "count_emitted ''destroyed'' guest0 = 0" by (simp add: guest0_simps count_emitted_def)
  from Destroy_idempotent [of guest0 "[engine0, engine0]" engine0] g
  have "\<exists>s1. Destroy engine0 guest0 = Inr s1 \<and>
          Destroy_times [engine0, engine0, engine0] guest0 = Inr s1 \<and>
          count_emitted ''destroyed'' s1 = Suc (count_emitted ''destroyed'' guest0)"
    by blast
  moreover from Destroy_idempotent [of wrapper0 "[engine0, engine0]" engine0] w
  have "Destroy_times [engine0, engine0] wrapper0 = Inr wrapper0" by blast
  ultimately show ?thesis using g d w e by auto
qed

text \<open>
  The claim as stated fails for a controller that wraps an existing web contents: two
  calls of \<open>Destroy\<close> return and leave it as it was, with no \<open>destroyed\<close> notification
  emitted at all.
\<close>

theorem Destroy_emits_once_counterexample:
  "Destroy_times [engine0, engine0] wrapper0 = Inr wrapper0 \<and>
   count_emitted ''destroyed'' wrapper0 = 0"
  by (simp add: wrapper0_def CreateFrom_def Destroy_def count_emitted_def)

text \<open>
  Claim C3. In every sequence of \<open>SetSize\<close> calls, from any state and with any
  parameters, the state after each call that returns has a stored minimum size that is
  component-wise at most the stored maximum size.
\<close>

theorem SetSize_trace_min_le_max:
  "t \<in> set (SetSize_trace ps s) \<Longrightarrow> Size_le (min_auto_size' t) (max_auto_size' t)"
proof (induction ps arbitrary: s)
  case Nil
  then show ?case by simp
next
  case (Cons p ps)
  obtain eng params where p: "p = (eng, params)" by (cases p)
  show ?case
  proof (cases "SetSize eng params s")
    case (Inl e)
    with Cons.prems p show ?thesis by simp
  next
    case (Inr s')
    with Cons.prems p have "t = s' \<or> t \<in> set (SetSize_trace ps s')" by simp
    then show ?thesis
    proof
      assume "t = s'"
      with SetSize_sizes(1,2) [OF Inr] show ?thesis
        by (simp add: Size_le_SetToMin_SetToMax)
    next
      assume "t \<in> set (SetSize_trace ps s')"
      then show ?thesis by (rule Cons.IH)
    qed
  qed
qed

theorem SetSize_trace_min_le_max_witness:
  "guest0\<lparr>min_auto_size' := \<lparr>width = 5, height = 50\<rparr>,
          max_auto_size' := \<lparr>width = 50, height = 80\<rparr>,
          engine_calls := engine_calls guest0 @
            [EnableAutoResize 5 \<lparr>width = 10, height = 10\<rparr> \<lparr>width = 50, height = 50\<rparr>,
             EnableAutoResize 5 \<lparr>width = 5, height = 50\<rparr> \<lparr>width = 50, height = 80\<rparr>],
          auto_size_enabled' := True\<rparr>
     \<in> set (SetSize_trace
          [(engine0, \<lparr>enable_auto_size = Some True,
                      min_size = Some \<lparr>width = 50, height = 50\<rparr>,
                      max_size = Some \<lparr>width = 10, height = 10\<rparr>,
                      normal_size = None\<rparr>),
           (engine0, \<lparr>enable_auto_size = None,
                      min_size = Some \<lparr>width = 5, height = 80\<rparr>,
                      max_size = None,
                      normal_size = None\<rparr>)] guest0)
   \<and> Size_le \<lparr>width = 5, height = 50\<rparr> \<lparr>width = 50, height = 80\<rparr>"
proof -
  have h: "guest0\<lparr>min_auto_size' := \<lparr>width = 5, height = 50\<rparr>,
          max_auto_size' := \<lparr>width = 50, height = 80\<rparr>,
          engine_calls := engine_calls guest0 @
            [EnableAutoResize 5 \<lparr>width = 10, height = 10\<rparr> \<lparr>width = 50, height = 50\<rparr>,
             EnableAutoResize 5 \<lparr>width = 5, height = 50\<rparr> \<lparr>width = 50, height = 80\<rparr>],
          auto_size_enabled' := True\<rparr>
     \<in> set (SetSize_trace
          [(engine0, \<lparr>enable_auto_size = Some True,
                      min_size = Some \<lparr>width = 50, height = 50\<rparr>,
                      max_size = Some \<lparr>width = 10, height = 10\<rparr>,
                      normal_size = None\<rparr>),
           (engine0, \<lparr>enable_auto_size = None,
                      min_size = Some \<lparr>width = 5, height = 80\<rparr>,
                      max_size = None,
                      normal_size = None\<rparr>)] guest0)"
    by (simp add: guest0_simps SetSize_eval)
  from SetSize_trace_min_le_max [OF h] h show ?thesis by simp
qed

text \<open>
  Claim C4. When \<open>SetSize\<close> returns with auto-size disabled and the default size is
  \<open>d\<close>, the new guest size is the target the specification describes: the normal size
  (the one passed, else the stored one) with a single zero component filled from \<open>d\<close>,
  if that is not empty; else the last guest size, if that is not empty; else \<open>d\<close>. The
  instance that follows the theorem is the specification's example: a normal size of
  (400, 0) on a guest with auto-size disabled and default size (300, 300) gives the
  guest size (400, 300).
\<close>

theorem SetSize_fixed_target:
  assumes "SetSize eng params s = Inr t" and "\<not> auto_size_enabled' t"
    and "GetDefaultSize eng s = Inr d"
  shows "guest_size' t =
           spec_target
             (spec_fill_normal (case normal_size params of Some n \<Rightarrow> n | None \<Rightarrow> normal_size' s) d)
             (guest_size' s) d"
proof -
  from assms(1,2) obtain rvh u where u: "SetSize_fixed eng rvh
             (s\<lparr>normal_size' := (case normal_size params of Some n \<Rightarrow> n | None \<Rightarrow> normal_size' s),
                min_auto_size' := SetToMin (case min_size params of Some m \<Rightarrow> m | None \<Rightarrow> min_auto_size' s)
                 (case max_size params of Some m \<Rightarrow> m | None \<Rightarrow> max_auto_size' s),
                max_auto_size' := SetToMax (case max_size params of Some m \<Rightarrow> m | None \<Rightarrow> max_auto_size' s)
                 (case min_size params of Some m \<Rightarrow> m | None \<Rightarrow> min_auto_size' s)\<rparr>) = Inr u" and g: "guest_size' t = guest_size' u"
    by (rule SetSize_fixed_path)
  from SetSize_fixed_guest_size [OF u] assms(3) g show ?thesis by simp
qed

theorem SetSize_fixed_target_witness:
  "SetSize engine0
     \<lparr>enable_auto_size = None, min_size = None, max_size = None,
      normal_size = Some \<lparr>width = 400, height = 0\<rparr>\<rparr> guest0
   = Inr (guest0
       \<lparr>normal_size' := \<lparr>width = 400, height = 300\<rparr>,
        guest_size' := \<lparr>width = 400, height = 300\<rparr>,
        engine_calls := engine_calls guest0 @ [SizeContents 7 \<lparr>width = 400, height = 300\<rparr>]\<rparr>)
   \<and> \<not> auto_size_enabled' guest0
   \<and> GetDefaultSize engine0 guest0 = Inr \<lparr>width = 300, height = 300\<rparr>
   \<and> spec_target (spec_fill_normal \<lparr>width = 400, height = 0\<rparr> \<lparr>width = 300, height = 300\<rparr>)
         (guest_size' guest0) \<lparr>width = 300, height = 300\<rparr>
       = \<lparr>width = 400, height = 300\<rparr>"
proof -
  have h: "SetSize engine0
     \<lparr>enable_auto_size = None, min_size = None, max_size = None,
      normal_size = Some \<lparr>width = 400, height = 0\<rparr>\<rparr> guest0
   = Inr (guest0
       \<lparr>normal_size' := \<lparr>width = 400, height = 300\<rparr>,
        guest_size' := \<lparr>width = 400, height = 300\<rparr>,
        engine_calls := engine_calls guest0 @ [SizeContents 7 \<lparr>width = 400, height = 300\<rparr>]\<rparr>)"
    by (simp add: guest0_simps SetSize_eval)
  have a: "\<not> auto_size_enabled' (guest0
       \<lparr>normal_size' := \<lparr>width = 400, height = 300\<rparr>,
        guest_size' := \<lparr>width = 400, height = 300\<rparr>,
        engine_calls := engine_calls guest0 @ [SizeContents 7 \<lparr>width = 400, height = 300\<rparr>]\<rparr>)"
    by (simp add: guest0_simps)
  have d: "GetDefaultSize engine0 guest0 = Inr \<lparr>width = 300, height = 300\<rparr>"
    by (simp add: guest0_simps GetDefaultSize_def kDefaultWidth_def kDefaultHeight_def)
  from SetSize_fixed_target [OF h a d] h a d show ?thesis by simp
qed

text \<open>
  Claim C5, as amended. \<open>WillAttach\<close> records the embedder it is given: after two calls
  the owner is the embedder of the second call, whatever the first one was.
\<close>

theorem WillAttach_overwrites:
  "GetOwnerWebContents (WillAttach e2 i2 p2 (WillAttach e1 i1 p1 s)) = e2"
  by (simp add: GetOwnerWebContents_def WillAttach_def)

text \<open>
  The claim as stated fails: after attaching to embedder 1 and then to embedder 2 the
  owner is embedder 2, not embedder 1.
\<close>

theorem WillAttach_keeps_first_counterexample:
  "GetOwnerWebContents (WillAttach (Some 2) 0 False (WillAttach (Some 1) 0 False guest0)) = Some 2
   \<and> GetOwnerWebContents (WillAttach (Some 1) 0 False guest0) = Some 1"
  by (simp add: GetOwnerWebContents_def WillAttach_def)

text \<open>
  Claim C6. A guest-size-changed notification from the engine leaves the controller as
  it is when auto-size is disabled. When auto-size is enabled it emits \<open>size-changed\<close>
  with the stored size and the new size, and the new size becomes the stored size.
\<close>

theorem GuestSizeChanged_effect:
  "GuestSizeChanged new_size s =
     (if auto_size_enabled' s then
        s\<lparr>emitted := emitted s @
              [(''size-changed'',
                [IntArg (width (guest_size' s)), IntArg (height (guest_size' s)),
                 IntArg (width new_size), IntArg (height new_size)])],
          guest_size' := new_size\<rparr>
      else s)"
  by (simp add: GuestSizeChanged_def GuestSizeChangedDueToAutoSize_def Emit_def)

text \<open>
  Claim C7. When \<open>SetSize\<close> returns with auto-size enabled, the stored normal size is
  (0, 0). A later call without a normal size that returns with auto-size disabled
  therefore takes the last guest size as its target, or the default size when the guest
  size is empty: never a normal size stored before auto-size was enabled.
\<close>

theorem SetSize_auto_resets_normal:
  assumes "SetSize eng params s = Inr s1" and "auto_size_enabled' s1"
  shows "normal_size' s1 = \<lparr>width = 0, height = 0\<rparr> \<and>
         (\<forall>eng2 params2 s2.
            normal_size params2 = None \<and> SetSize eng2 params2 s1 = Inr s2 \<and> \<not> auto_size_enabled' s2 \<longrightarrow>
            (if \<not> IsEmpty (guest_size' s1) then guest_size' s2 = guest_size' s1
             else GetDefaultSize eng2 s1 = Inr (guest_size' s2)))"
  using SetSize_auto_normal_size(1) [OF assms] SetSize_no_normal_target by blast

theorem SetSize_auto_resets_normal_witness:
  "SetSize engine0
     \<lparr>enable_auto_size = Some True,
      min_size = Some \<lparr>width = 10, height = 10\<rparr>,
      max_size = Some \<lparr>width = 50, height = 50\<rparr>,
      normal_size = Some \<lparr>width = 400, height = 400\<rparr>\<rparr> guest0
   = Inr (guest0
       \<lparr>min_auto_size' := \<lparr>width = 10, height = 10\<rparr>,
        max_auto_size' := \<lparr>width = 50, height = 50\<rparr>,
        engine_calls := engine_calls guest0 @
          [EnableAutoResize 5 \<lparr>width = 10, height = 10\<rparr> \<lparr>width = 50, height = 50\<rparr>],
        auto_size_enabled' := True\<rparr>)
   \<and> SetSize engine0
       \<lparr>enable_auto_size = Some False, min_size = None, max_size = None, normal_size = None\<rparr>
       (guest0
         \<lparr>min_auto_size' := \<lparr>width = 10, height = 10\<rparr>,
          max_auto_size' := \<lparr>width = 50, height = 50\<rparr>,
          engine_calls := engine_calls guest0 @
            [EnableAutoResize 5 \<lparr>width = 10, height = 10\<rparr> \<lparr>width = 50, height = 50\<rparr>],
          auto_size_enabled' := True\<rparr>)
     = Inr (guest0
         \<lparr>min_auto_size' := \<lparr>width = 10, height = 10\<rparr>,
          max_auto_size' := \<lparr>width = 50, height = 50\<rparr>,
          guest_size' := \<lparr>width = 300, height = 300\<rparr>,
          emitted := [(''size-changed'', [IntArg 0, IntArg 0, IntArg 300, IntArg 300])],
          engine_calls := engine_calls guest0 @
            [EnableAutoResize 5 \<lparr>width = 10, height = 10\<rparr> \<lparr>width = 50, height = 50\<rparr>,
             DisableAutoResize 5 \<lparr>width = 300, height = 300\<rparr>]\<rparr>)
   \<and> GetDefaultSize engine0 guest0 = Inr \<lparr>width = 300, height = 300\<rparr>"
proof -
  let ?s1 = "guest0
       \<lparr>min_auto_size' := \<lparr>width = 10, height = 10\<rparr>,
        max_auto_size' := \<lparr>width = 50, height = 50\<rparr>,
        engine_calls := engine_calls guest0 @
          [EnableAutoResize 5 \<lparr>width = 10, height = 10\<rparr> \<lparr>width = 50, height = 50\<rparr>],
        auto_size_enabled' := True\<rparr>"
  let ?s2 = "guest0
         \<lparr>min_auto_size' := \<lparr>width = 10, height = 10\<rparr>,
          max_auto_size' := \<lparr>width = 50, height = 50\<rparr>,
          guest_size' := \<lparr>width = 300, height = 300\<rparr>,
          emitted := [(''size-changed'', [IntArg 0, IntArg 0, IntArg 300, IntArg 300])],
          engine_calls := engine_calls guest0 @
            [EnableAutoResize 5 \<lparr>width = 10, height = 10\<rparr> \<lparr>width = 50, height = 50\<rparr>,
             DisableAutoResize 5 \<lparr>width = 300, height = 300\<rparr>]\<rparr>"
  have h1: "SetSize engine0
     \<lparr>enable_auto_size = Some True,
      min_size = Some \<lparr>width = 10, height = 10\<rparr>,
      max_size = Some \<lparr>width = 50, height = 50\<rparr>,
      normal_size = Some \<lparr>width = 400, height = 400\<rparr>\<rparr> guest0 = Inr ?s1"
    by (simp add: guest0_simps SetSize_eval)
  have a1: "auto_size_enabled' ?s1" by simp
  have h2: "SetSize engine0
       \<lparr>enable_auto_size = Some False, min_size = None, max_size = None, normal_size = None\<rparr> ?s1
     = Inr ?s2"
    by (simp add: guest0_simps SetSize_eval)
  have d: "GetDefaultSize engine0 guest0 = Inr \<lparr>width = 300, height = 300\<rparr>"
    by (simp add: guest0_simps GetDefaultSize_def kDefaultWidth_def kDefaultHeight_def)
  from SetSize_auto_resets_normal [OF h1 a1] h1 h2 d show ?thesis by simp
qed

text \<open>
  Claim C8, as amended. The payload of \<open>page-favicon-updated\<close> is in increasing order of
  spec without two URLs of the same spec; every URL in it is a valid URL of an entry of
  type \<open>FAVICON\<close>, and every valid URL of such an entry is in it (up to the equivalence
  of the set, which is equality of specs). URLs that are not valid are left out, like
  the entries of another icon type.
\<close>

theorem DidUpdateFaviconURL_payload:
  "emitted (DidUpdateFaviconURL urls s) =
     emitted s @ [(''page-favicon-updated'', [UrlSetArg (collect_favicons urls [])])] \<and>
   sorted_wrt (\<lambda>a b. spec a < spec b) (collect_favicons urls []) \<and>
   distinct (map spec (collect_favicons urls [])) \<and>
   set (collect_favicons urls []) \<subseteq>
     icon_url ` {f \<in> set urls. icon_type f = FAVICON \<and> is_valid (icon_url f)} \<and>
   spec ` set (collect_favicons urls []) =
     spec ` icon_url ` {f \<in> set urls. icon_type f = FAVICON \<and> is_valid (icon_url f)}"
proof -
  have s: "sorted_wrt (\<lambda>a b. spec a < spec b) (collect_favicons urls [])"
    by (rule collect_favicons_sorted) simp
  from collect_favicons_subset [of urls "[]"] collect_favicons_specs [of urls "[]"]
    s sorted_specs_distinct [OF s]
  show ?thesis by (simp add: DidUpdateFaviconURL_def Emit_def)
qed

theorem DidUpdateFaviconURL_payload_witness:
  "emitted (DidUpdateFaviconURL
     [\<lparr>icon_url = \<lparr>spec = ''http://b/'', is_valid = True\<rparr>, icon_type = FAVICON\<rparr>,
      \<lparr>icon_url = \<lparr>spec = ''http://t/'', is_valid = True\<rparr>, icon_type = TOUCH_ICON\<rparr>,
      \<lparr>icon_url = \<lparr>spec = ''http://a/'', is_valid = True\<rparr>, icon_type = FAVICON\<rparr>,
      \<lparr>icon_url = \<lparr>spec = ''http://b/'', is_valid = True\<rparr>, icon_type = FAVICON\<rparr>] wrapper0)
   = [(''page-favicon-updated'',
       [UrlSetArg [\<lparr>spec = ''http://a/'', is_valid = True\<rparr>, \<lparr>spec = ''http://b/'', is_valid = True\<rparr>]])]
   \<and> distinct (map spec [\<lparr>spec = ''http://a/'', is_valid = True\<rparr>, \<lparr>spec = ''http://b/'', is_valid = True\<rparr>])"
proof -
  have c: "collect_favicons
     [\<lparr>icon_url = \<lparr>spec = ''http://b/'', is_valid = True\<rparr>, icon_type = FAVICON\<rparr>,
      \<lparr>icon_url = \<lparr>spec = ''http://t/'', is_valid = True\<rparr>, icon_type = TOUCH_ICON\<rparr>,
      \<lparr>icon_url = \<lparr>spec = ''http://a/'', is_valid = True\<rparr>, icon_type = FAVICON\<rparr>,
      \<lparr>icon_url = \<lparr>spec = ''http://b/'', is_valid = True\<rparr>, icon_type = FAVICON\<rparr>] []
    = [\<lparr>spec = ''http://a/'', is_valid = True\<rparr>, \<lparr>spec = ''http://b/'', is_valid = True\<rparr>]"
    by simp
  have w: "emitted wrapper0 = []" by (simp add: wrapper0_def CreateFrom_def)
  from DidUpdateFaviconURL_payload [of
     "[\<lparr>icon_url = \<lparr>spec = ''http://b/'', is_valid = True\<rparr>, icon_type = FAVICON\<rparr>,
      \<lparr>icon_url = \<lparr>spec = ''http://t/'', is_valid = True\<rparr>, icon_type = TOUCH_ICON\<rparr>,
      \<lparr>icon_url = \<lparr>spec = ''http://a/'', is_valid = True\<rparr>, icon_type = FAVICON\<rparr>,
      \<lparr>icon_url = \<lparr>spec = ''http://b/'', is_valid = True\<rparr>, icon_type = FAVICON\<rparr>]" wrapper0]
  show ?thesis unfolding c w by simp
qed

text \<open>
  The claim as stated fails: an entry of type \<open>FAVICON\<close> whose URL is not valid is not
  in the payload.
\<close>

theorem DidUpdateFaviconURL_all_favicons_counterexample:
  "emitted (DidUpdateFaviconURL
     [\<lparr>icon_url = \<lparr>spec = ''http://'', is_valid = False\<rparr>, icon_type = FAVICON\<rparr>] wrapper0)
   = [(''page-favicon-updated'', [UrlSetArg []])]
   \<and> icon_type \<lparr>icon_url = \<lparr>spec = ''http://'', is_valid = False\<rparr>, icon_type = FAVICON\<rparr> = FAVICON"
  by (simp add: DidUpdateFaviconURL_def Emit_def wrapper0_def CreateFrom_def)




text \<open>
  Claim C10. When the dictionary holds a boolean under \<open>enableAutoSize\<close>, the conversion
  succeeds and the parsed \<open>enable_auto_size\<close> is \<open>true\<close>, whatever the boolean is. The
  dictionary with \<open>false\<close> under that key converts to the same parameters as the one with
  \<open>true\<close>, so \<open>SetSize\<close> does the same on both.
\<close>

theorem FromV8_enableAutoSize_always_true:
  assumes "Get_bool d ''enableAutoSize'' = Some b"
  shows "fst (FromV8 (Some d) out) \<and>
         enable_auto_size (snd (FromV8 (Some d) out)) = Some True \<and>
         FromV8 (Some (d\<lparr>Get_bool := (Get_bool d)(''enableAutoSize'' := Some False)\<rparr>)) out
           = FromV8 (Some (d\<lparr>Get_bool := (Get_bool d)(''enableAutoSize'' := Some True)\<rparr>)) out \<and>
         SetSize eng (snd (FromV8 (Some (d\<lparr>Get_bool := (Get_bool d)(''enableAutoSize'' := Some False)\<rparr>)) out)) s
           = SetSize eng (snd (FromV8 (Some (d\<lparr>Get_bool := (Get_bool d)(''enableAutoSize'' := Some True)\<rparr>)) out)) s"
proof -
  have e: "FromV8 (Some (d\<lparr>Get_bool := (Get_bool d)(''enableAutoSize'' := Some False)\<rparr>)) out
           = FromV8 (Some (d\<lparr>Get_bool := (Get_bool d)(''enableAutoSize'' := Some True)\<rparr>)) out"
    by (simp add: FromV8_def)
  have "fst (FromV8 (Some d) out)" by (simp add: FromV8_def Let_def)
  moreover have "enable_auto_size (snd (FromV8 (Some d) out)) = Some True"
    using assms by (simp add: FromV8_def Let_def split: option.splits)
  ultimately show ?thesis using e by simp
qed

theorem FromV8_enableAutoSize_always_true_witness:
  "Get_bool \<lparr>Get_bool = (\<lambda>k. if k = ''enableAutoSize'' then Some False else None),
             Get_Size = (\<lambda>k. None)\<rparr> ''enableAutoSize'' = Some False
   \<and> FromV8 (Some \<lparr>Get_bool = (\<lambda>k. if k = ''enableAutoSize'' then Some False else None),
                    Get_Size = (\<lambda>k. None)\<rparr>)
        \<lparr>enable_auto_size = None, min_size = None, max_size = None, normal_size = None\<rparr>
     = (True, \<lparr>enable_auto_size = Some True, min_size = None, max_size = None, normal_size = None\<rparr>)"
proof -
  have h: "Get_bool \<lparr>Get_bool = (\<lambda>k. if k = ''enableAutoSize'' then Some False else None),
             Get_Size = (\<lambda>k. None)\<rparr> ''enableAutoSize'' = Some False"
    by simp
  from FromV8_enableAutoSize_always_true [OF h] h show ?thesis
    by (simp add: FromV8_def)
qed

end
